theory Spec2Isabelle
  imports Main
begin

section \<open>Dynamic document values\<close>

text \<open>
  The handler in \<^verbatim>\<open>src/handlers/product.go\<close> works on loosely typed documents:
  \<^verbatim>\<open>bson.M\<close> (a Go map from field names to \<^verbatim>\<open>interface{}\<close>) and
  \<^verbatim>\<open>bson.A\<close> (a slice of \<^verbatim>\<open>interface{}\<close>). A dynamic value is a tagged union.
  A \<^verbatim>\<open>bson.M\<close> is written as an association list read with \<open>map_of\<close>; a field that is
  absent reads as \<open>None\<close>, which is Go's nil interface value.
\<close>

datatype bval =
    BStr string
  | BDoc "(string \<times> bval) list"
  | BArr "bval list"
  | BInt int
  | BBool bool
  | BNull

type_synonym doc = "(string \<times> bval) list"

text \<open>The two-result type assertions \<^verbatim>\<open>v, ok := x.(T)\<close>: \<open>None\<close> is \<^verbatim>\<open>ok == false\<close>.\<close>

fun assertM :: "bval option \<Rightarrow> doc option" where
  "assertM (Some (BDoc m)) = Some m"
| "assertM _ = None"

fun assertA :: "bval option \<Rightarrow> bval list option" where
  "assertA (Some (BArr a)) = Some a"
| "assertA _ = None"

fun assertString :: "bval option \<Rightarrow> string option" where
  "assertString (Some (BStr s)) = Some s"
| "assertString _ = None"

text \<open>
  The one-result type assertion \<^verbatim>\<open>x.(bson.M)\<close> panics when the dynamic type is not
  \<^verbatim>\<open>bson.M\<close>. The panic is a value: it records the field whose value was asserted.
\<close>

datatype panic = InterfaceConversion string

definition mustM :: "doc \<Rightarrow> string \<Rightarrow> panic + doc" where
  "mustM m key = (case assertM (map_of m key) of
                    Some d \<Rightarrow> Inr d
                  | None \<Rightarrow> Inl (InterfaceConversion key))"

text \<open>\<^verbatim>\<open>getStringField(data interface{}, key string) string\<close>, lines 186 to 194.\<close>

definition getStringField :: "bval option \<Rightarrow> string \<Rightarrow> string" where
  "getStringField data key =
     (case assertM data of
        Some dataMap \<Rightarrow>
          (case assertString (map_of dataMap key) of
             Some v \<Rightarrow> v
           | None \<Rightarrow> [])
      | None \<Rightarrow> [])"

section \<open>Sanitizing search text\<close>

text \<open>
  \<^verbatim>\<open>SanitizeString\<close> compiles the character class of line 49 and calls
  \<^verbatim>\<open>ReplaceAllString(input, `\$0`)\<close>. The class holds fourteen ASCII characters; the
  template is a backslash followed by the whole match. Strings are byte lists; every
  member of the class is one ASCII byte, and an ASCII byte never occurs inside a
  multi-byte UTF-8 sequence, so matching byte by byte is what the library does.
\<close>

definition backslash :: char where
  "backslash = CHR 0x5C"

definition metachars :: "char list" where
  "metachars = [CHR ''.'', CHR ''*'', CHR ''+'', CHR ''?'', CHR ''^'', CHR ''$'',
                CHR ''{'', CHR ''}'', CHR ''('', CHR '')'', CHR ''|'', CHR ''['',
                CHR '']'', backslash]"

definition isMeta :: "char \<Rightarrow> bool" where
  "isMeta c = (c \<in> set metachars)"

text \<open>The replacement template \<^verbatim>\<open>\$0\<close> expanded at a match.\<close>

definition expandTemplate :: "string \<Rightarrow> string" where
  "expandTemplate m = backslash # m"

text \<open>
  The library's replace-all loop: find the next match at or after the current position,
  copy the unmatched bytes before it, append the expanded template, continue after the
  match; at the end copy the unmatched rest.
\<close>

function replaceAllMeta :: "string \<Rightarrow> string" where
  "replaceAllMeta src =
     (let gap = takeWhile (\<lambda>c. \<not> isMeta c) src;
          rest = dropWhile (\<lambda>c. \<not> isMeta c) src
      in case rest of
           [] \<Rightarrow> gap
         | m # after \<Rightarrow> gap @ expandTemplate [m] @ replaceAllMeta after)"
  by pat_completeness auto
termination
proof (relation "measure length")
  show "wf (measure length)" by simp
next
  fix src :: string and gap rest :: string and m :: char and after :: string
  assume "rest = dropWhile (\<lambda>c. \<not> isMeta c) src" and "rest = m # after"
  then have "length (m # after) \<le> length src"
    by (metis length_dropWhile_le)
  then show "(after, src) \<in> measure length" by simp
qed

declare replaceAllMeta.simps [simp del]

definition SanitizeString :: "string \<Rightarrow> string" where
  "SanitizeString input = replaceAllMeta input"

text \<open>
  The specification's wording of the sanitizer, for comparison with the code: walk the
  input and put a backslash immediately before each character of the set.
\<close>

primrec escape_spec :: "string \<Rightarrow> string" where
  "escape_spec [] = []"
| "escape_spec (c # cs) =
     (if c \<in> set metachars then backslash # c # escape_spec cs else c # escape_spec cs)"

section \<open>Page and limit\<close>

text \<open>
  \<^verbatim>\<open>strconv.Atoi\<close>: an optional sign, then one or more decimal digits, and the value
  must fit Go's \<^verbatim>\<open>int\<close>, taken as 64 bits wide (amd64, arm64). \<open>None\<close> is a non-nil
  error; the handler never reads the value returned beside an error.
\<close>

definition isDigit :: "char \<Rightarrow> bool" where
  "isDigit c = (48 \<le> (of_char c :: nat) \<and> (of_char c :: nat) \<le> 57)"

fun decimal :: "int \<Rightarrow> string \<Rightarrow> int" where
  "decimal acc [] = acc"
| "decimal acc (c # cs) = decimal (acc * 10 + (of_char c - 48)) cs"

definition minInt :: int where
  "minInt = - (2 ^ 63)"

definition maxInt :: int where
  "maxInt = 2 ^ 63 - 1"

definition Atoi :: "string \<Rightarrow> int option" where
  "Atoi s =
     (let neg = (case s of [] \<Rightarrow> False | c # _ \<Rightarrow> c = CHR ''-'');
          ds = (case s of [] \<Rightarrow> []
                | c # r \<Rightarrow> if c = CHR ''-'' \<or> c = CHR ''+'' then r else s)
      in if ds = [] \<or> \<not> list_all isDigit ds then None
         else let n = decimal 0 ds;
                  v = (if neg then - n else n)
              in if v < minInt \<or> maxInt < v then None else Some v)"

text \<open>Lines 59 to 66.\<close>

definition effectivePage :: "string \<Rightarrow> int" where
  "effectivePage pageStr =
     (case Atoi pageStr of
        None \<Rightarrow> 1
      | Some page \<Rightarrow> if page < 1 then 1 else page)"

definition effectiveLimit :: "string \<Rightarrow> int" where
  "effectiveLimit limitStr =
     (case Atoi limitStr of
        None \<Rightarrow> 10
      | Some limit \<Rightarrow> if limit < 1 then 10 else limit)"

section \<open>Filter\<close>

text \<open>
  Lines 72 to 90. The filter is a \<^verbatim>\<open>bson.M\<close>; assignment to a key is \<open>setKey\<close>.
  \<^verbatim>\<open>strings.ToUpper\<close> is a parameter of the model.
\<close>

definition setKey :: "string \<Rightarrow> bval \<Rightarrow> doc \<Rightarrow> doc" where
  "setKey k v m = (k, v) # filter (\<lambda>kv. fst kv \<noteq> k) m"

definition regexMatch :: "string \<Rightarrow> bval" where
  "regexMatch pat = BDoc [(''$regex'', BStr pat), (''$options'', BStr ''i'')]"

definition buildFilter :: "(string \<Rightarrow> string) \<Rightarrow> string \<Rightarrow> string \<Rightarrow> doc" where
  "buildFilter toUpper param status =
     (let filter0 = [];
          filter1 =
            (if param \<noteq> [] then
               (let sanitizedParam = SanitizeString param
                in setKey ''$or''
                     (BArr [BDoc [(''productType.key'', regexMatch sanitizedParam)],
                            BDoc [(''key'', regexMatch sanitizedParam)],
                            BDoc [(''productList.productName'', regexMatch sanitizedParam)],
                            BDoc [(''productList.insurer.insurerCode'', regexMatch sanitizedParam)],
                            BDoc [(''productList.brokers.key'', regexMatch sanitizedParam)]])
                     filter0)
             else filter0);
          filter2 =
            (if status \<noteq> [] then
               (let sanitizedStatus = SanitizeString (toUpper status)
                in setKey ''productList.productStatus'' (regexMatch sanitizedStatus) filter1)
             else filter1)
      in filter2)"

section \<open>Response types\<close>

text \<open>
  The structs of lines 17 to 46. A Go slice is either nil or a (possibly empty) sequence:
  \<open>None\<close> is the nil slice. \<^verbatim>\<open>append\<close> always returns a non-nil slice.
\<close>

type_synonym 'a slice = "'a list option"

definition elems :: "'a slice \<Rightarrow> 'a list" where
  "elems s = (case s of None \<Rightarrow> [] | Some xs \<Rightarrow> xs)"

definition append1 :: "'a slice \<Rightarrow> 'a \<Rightarrow> 'a slice" where
  "append1 s x = Some (elems s @ [x])"

record ProductGroup =
  pgName :: string
  pgKey :: string

record ProductType =
  ptName :: string
  ptKey :: string

record Insurer =
  insID :: string
  InsurerCode :: string
  InsurerName :: string

record Broker =
  brKey :: string
  ChannelName :: string

record Product =
  ID :: string
  ProductName :: string
  ProductGroup :: ProductGroup
  ProductType :: ProductType
  Insurer :: Insurer
  Brokers :: "Broker slice"
  Status :: string

record Response =
  Data :: "Product slice"

section \<open>Flattening\<close>

text \<open>Lines 136 to 148: the brokers of one product-list entry.\<close>

fun brokersLoop :: "bval list \<Rightarrow> Broker slice \<Rightarrow> Broker slice" where
  "brokersLoop [] brokers = brokers"
| "brokersLoop (brokerItem # rest) brokers =
     (case assertM (Some brokerItem) of
        Some brokerMap \<Rightarrow>
          brokersLoop rest
            (append1 brokers
               \<lparr>brKey = getStringField (Some (BDoc brokerMap)) ''key'',
                ChannelName = getStringField (Some (BDoc brokerMap)) ''channelName''\<rparr>)
      | None \<Rightarrow> brokersLoop rest brokers)"

definition collectBrokers :: "doc \<Rightarrow> Broker slice" where
  "collectBrokers productMap =
     (let brokers = Some [] in
      case assertA (map_of productMap ''brokers'') of
        Some brokersData \<Rightarrow> brokersLoop brokersData brokers
      | None \<Rightarrow> brokers)"

text \<open>
  Lines 150 to 168: the struct literal, its field expressions evaluated in source order.
  The five one-result assertions on \<^verbatim>\<open>result["productType"]\<close> and
  \<^verbatim>\<open>productMap["insurer"]\<close> are the places that can panic.
\<close>

definition buildProduct :: "doc \<Rightarrow> doc \<Rightarrow> Broker slice \<Rightarrow> panic + Product" where
  "buildProduct result productMap brokers =
     (let id = getStringField (Some (BDoc productMap)) ''id'';
          productName = getStringField (Some (BDoc productMap)) ''productName'';
          groupName = getStringField (Some (BDoc result)) ''name'';
          groupKey = getStringField (Some (BDoc result)) ''key''
      in case mustM result ''productType'' of
           Inl p \<Rightarrow> Inl p
         | Inr t1 \<Rightarrow>
        (case mustM result ''productType'' of
           Inl p \<Rightarrow> Inl p
         | Inr t2 \<Rightarrow>
        (case mustM productMap ''insurer'' of
           Inl p \<Rightarrow> Inl p
         | Inr i1 \<Rightarrow>
        (case mustM productMap ''insurer'' of
           Inl p \<Rightarrow> Inl p
         | Inr i2 \<Rightarrow>
        (case mustM productMap ''insurer'' of
           Inl p \<Rightarrow> Inl p
         | Inr i3 \<Rightarrow>
             Inr \<lparr>ID = id,
                  ProductName = productName,
                  ProductGroup = \<lparr>pgName = groupName, pgKey = groupKey\<rparr>,
                  ProductType =
                    \<lparr>ptName = getStringField (Some (BDoc t1)) ''name'',
                     ptKey = getStringField (Some (BDoc t2)) ''key''\<rparr>,
                  Insurer =
                    \<lparr>insID = getStringField (Some (BDoc i1)) ''_id'',
                     InsurerCode = getStringField (Some (BDoc i2)) ''insurerCode'',
                     InsurerName = getStringField (Some (BDoc i3)) ''insurerName''\<rparr>,
                  Brokers = brokers,
                  Status = getStringField (Some (BDoc productMap)) ''productStatus''\<rparr>)))))"

text \<open>Lines 129 to 170: the entries of one group's product list.\<close>

fun itemsLoop :: "doc \<Rightarrow> bval list \<Rightarrow> Product slice \<Rightarrow> panic + Product slice" where
  "itemsLoop result [] products = Inr products"
| "itemsLoop result (item # rest) products =
     (case assertM (Some item) of
        None \<Rightarrow> itemsLoop result rest products
      | Some productMap \<Rightarrow>
          (case buildProduct result productMap (collectBrokers productMap) of
             Inl p \<Rightarrow> Inl p
           | Inr product \<Rightarrow> itemsLoop result rest (append1 products product)))"

text \<open>Lines 122 to 171: the decoded result set.\<close>

fun resultsLoop :: "doc list \<Rightarrow> Product slice \<Rightarrow> panic + Product slice" where
  "resultsLoop [] products = Inr products"
| "resultsLoop (result # rest) products =
     (case assertA (map_of result ''productList'') of
        None \<Rightarrow> resultsLoop rest products
      | Some productList \<Rightarrow>
          (case itemsLoop result productList products of
             Inl p \<Rightarrow> Inl p
           | Inr products' \<Rightarrow> resultsLoop rest products'))"

text \<open>Line 121 declares \<^verbatim>\<open>var products []Product\<close>: the loop starts from the nil slice.\<close>

definition flatten :: "doc list \<Rightarrow> panic + Product slice" where
  "flatten results = resultsLoop results None"

section \<open>The handler\<close>

text \<open>
  The document store is outside the program: the collection's \<^verbatim>\<open>Find\<close> and the
  cursor's \<^verbatim>\<open>All\<close> are parameters. An error is its message text; the ten-second
  deadline of line 92 shows only as one more error these two calls may return. Every call
  the handler makes on the store is recorded, in order, the deferred
  \<^verbatim>\<open>cursor.Close\<close> last. The \<^verbatim>\<open>log.Printf\<close> lines write to the server's log only
  and are left out. The handler's outcome is a reply or a panic.
\<close>

record FindOptions =
  Sort :: "(string \<times> int) list"
  Skip :: int
  Limit :: int

record 'c Collection =
  Find :: "doc \<Rightarrow> FindOptions \<Rightarrow> string + 'c"
  All :: "'c \<Rightarrow> string + doc list"

datatype call = CallFind doc FindOptions | CallAll | CallClose

datatype reply = SendString nat string | JSON nat Response

text \<open>\<^verbatim>\<open>c.Query(key, default)\<close>: the default replaces an absent or empty value.\<close>

definition Query :: "(string \<rightharpoonup> string) \<Rightarrow> string \<Rightarrow> string \<Rightarrow> string" where
  "Query c key dflt =
     (case c key of
        None \<Rightarrow> dflt
      | Some v \<Rightarrow> if v = [] then dflt else v)"

text \<open>Arithmetic on Go's \<^verbatim>\<open>int\<close> wraps around at 64 bits.\<close>

definition wrapInt :: "int \<Rightarrow> int" where
  "wrapInt x = (x + 2 ^ 63) mod 2 ^ 64 - 2 ^ 63"

text \<open>Lines 103 to 106.\<close>

definition findOptions :: "int \<Rightarrow> int \<Rightarrow> FindOptions" where
  "findOptions page limit =
     \<lparr>Sort = [(''productList.productName'', 1)],
      Skip = wrapInt (wrapInt (page - 1) * limit),
      Limit = limit\<rparr>"

definition GetProducts ::
  "(string \<Rightarrow> string) \<Rightarrow> 'c Collection \<Rightarrow> (string \<rightharpoonup> string) \<Rightarrow> (panic + reply) \<times> call list" where
  "GetProducts toUpper coll c =
     (let param = Query c ''param'' [];
          status = Query c ''status'' [];
          pageStr = Query c ''page'' ''1'';
          limitStr = Query c ''limit'' ''10'';
          page = effectivePage pageStr;
          limit = effectiveLimit limitStr;
          filter = buildFilter toUpper param status;
          opts = findOptions page limit
      in case Find coll filter opts of
           Inl err \<Rightarrow> (Inr (SendString 500 err), [CallFind filter opts])
         | Inr cursor \<Rightarrow>
             (case All coll cursor of
                Inl err \<Rightarrow>
                  (Inr (SendString 500 err), [CallFind filter opts, CallAll, CallClose])
              | Inr results \<Rightarrow>
                  (case flatten results of
                     Inl p \<Rightarrow> (Inl p, [CallFind filter opts, CallAll, CallClose])
                   | Inr products \<Rightarrow>
                       (Inr (JSON 200 \<lparr>Data = products\<rparr>),
                        [CallFind filter opts, CallAll, CallClose]))))"

section \<open>The response on the wire\<close>

text \<open>
  \<^verbatim>\<open>c.JSON\<close> marshals the struct with the standard encoder: a struct is an object whose
  members are named by the field tags, a string is a string, a nil slice is
  \<^verbatim>\<open>null\<close> and a non-nil slice is an array. \<^verbatim>\<open>SendString\<close> sends the text as it is.
\<close>

datatype json =
    JNull
  | JString string
  | JArray "json list"
  | JObject "(string \<times> json) list"

definition marshalSlice :: "('a \<Rightarrow> json) \<Rightarrow> 'a slice \<Rightarrow> json" where
  "marshalSlice enc s = (case s of None \<Rightarrow> JNull | Some xs \<Rightarrow> JArray (map enc xs))"

definition marshalBroker :: "Broker \<Rightarrow> json" where
  "marshalBroker b =
     JObject [(''key'', JString (brKey b)), (''channelName'', JString (ChannelName b))]"

definition marshalProduct :: "Product \<Rightarrow> json" where
  "marshalProduct p =
     JObject
       [(''id'', JString (ID p)),
        (''productName'', JString (ProductName p)),
        (''productGroup'',
           JObject [(''name'', JString (pgName (ProductGroup p))),
                    (''key'', JString (pgKey (ProductGroup p)))]),
        (''productType'',
           JObject [(''name'', JString (ptName (ProductType p))),
                    (''key'', JString (ptKey (ProductType p)))]),
        (''insurer'',
           JObject [(''_id'', JString (insID (Insurer p))),
                    (''insurerCode'', JString (InsurerCode (Insurer p))),
                    (''insurerName'', JString (InsurerName (Insurer p)))]),
        (''brokers'', marshalSlice marshalBroker (Brokers p)),
        (''status'', JString (Status p))]"

definition marshalResponse :: "Response \<Rightarrow> json" where
  "marshalResponse r = JObject [(''data'', marshalSlice marshalProduct (Data r))]"

datatype wire = PlainText string | JsonBody json

fun statusOf :: "reply \<Rightarrow> nat" where
  "statusOf (SendString code _) = code"
| "statusOf (JSON code _) = code"

fun bodyOf :: "reply \<Rightarrow> wire" where
  "bodyOf (SendString _ text) = PlainText text"
| "bodyOf (JSON _ r) = JsonBody (marshalResponse r)"

section \<open>Counting well-formed entries\<close>

text \<open>
  An entry of a product list or of a brokers array is well-formed when the two-result
  assertion to \<^verbatim>\<open>bson.M\<close> succeeds on it. A group's product list counts only when the
  two-result assertion to \<^verbatim>\<open>bson.A\<close> succeeds on the field.
\<close>

definition isDocument :: "bval \<Rightarrow> bool" where
  "isDocument v = (assertM (Some v) \<noteq> None)"

definition groupItemCount :: "doc \<Rightarrow> nat" where
  "groupItemCount result =
     (case assertA (map_of result ''productList'') of
        None \<Rightarrow> 0
      | Some productList \<Rightarrow> length (filter isDocument productList))"

definition brokerOf :: "bval \<Rightarrow> Broker" where
  "brokerOf v =
     \<lparr>brKey = getStringField (Some v) ''key'',
      ChannelName = getStringField (Some v) ''channelName''\<rparr>"

section \<open>The request's derived values\<close>

text \<open>Names for the values the handler computes from the query string, lines 54 to 106.\<close>

definition requestPage :: "(string \<rightharpoonup> string) \<Rightarrow> int" where
  "requestPage c = effectivePage (Query c ''page'' ''1'')"

definition requestLimit :: "(string \<rightharpoonup> string) \<Rightarrow> int" where
  "requestLimit c = effectiveLimit (Query c ''limit'' ''10'')"

definition requestFilter :: "(string \<Rightarrow> string) \<Rightarrow> (string \<rightharpoonup> string) \<Rightarrow> doc" where
  "requestFilter toUpper c = buildFilter toUpper (Query c ''param'' []) (Query c ''status'' [])"

definition requestOptions :: "(string \<rightharpoonup> string) \<Rightarrow> FindOptions" where
  "requestOptions c = findOptions (requestPage c) (requestLimit c)"

text \<open>What the store answers to the handler's query: an error text or the decoded documents.\<close>

definition fetch ::
  "(string \<Rightarrow> string) \<Rightarrow> 'c Collection \<Rightarrow> (string \<rightharpoonup> string) \<Rightarrow> string + doc list" where
  "fetch toUpper coll c =
     (case Find coll (requestFilter toUpper c) (requestOptions c) of
        Inl err \<Rightarrow> Inl err
      | Inr cursor \<Rightarrow> All coll cursor)"

definition findCalls :: "call list \<Rightarrow> nat" where
  "findCalls calls = length (filter (\<lambda>x. case x of CallFind _ _ \<Rightarrow> True | _ \<Rightarrow> False) calls)"

text \<open>The member of a JSON object with a given name.\<close>

fun member :: "json \<Rightarrow> string \<Rightarrow> json option" where
  "member (JObject kvs) k = map_of kvs k"
| "member _ k = None"

section \<open>Example documents and stores\<close>

definition brokerA :: bval where
  "brokerA = BDoc [(''key'', BStr ''BRK-A''), (''channelName'', BStr ''Agency'')]"

definition brokerB :: bval where
  "brokerB = BDoc [(''key'', BStr ''BRK-B''), (''channelName'', BStr ''Online'')]"

definition insurerX :: bval where
  "insurerX = BDoc [(''_id'', BStr ''i1''), (''insurerCode'', BStr ''INSX''),
                    (''insurerName'', BStr ''Insurer X'')]"

text \<open>An entry whose brokers array holds two documents and, between them, a string.\<close>

definition mixedMap :: doc where
  "mixedMap = [(''id'', BStr ''p1''), (''productName'', BStr ''Alpha''),
               (''productStatus'', BStr ''ACTIVE''), (''insurer'', insurerX),
               (''brokers'', BArr [brokerA, BStr ''n/a'', brokerB])]"

definition entryMixed :: bval where
  "entryMixed = BDoc mixedMap"

text \<open>An entry with no brokers field.\<close>

definition entryPlain :: bval where
  "entryPlain = BDoc [(''id'', BStr ''p2''), (''productName'', BStr ''Beta''),
                      (''productStatus'', BStr ''INACTIVE''), (''insurer'', insurerX)]"

text \<open>An entry with no insurer field.\<close>

definition entryNoInsurer :: bval where
  "entryNoInsurer = BDoc [(''id'', BStr ''p3''), (''productName'', BStr ''Gamma'')]"

definition typeDoc :: bval where
  "typeDoc = BDoc [(''name'', BStr ''Individual''), (''key'', BStr ''IND'')]"

definition groupTwo :: doc where
  "groupTwo = [(''name'', BStr ''Health''), (''key'', BStr ''HLT''),
               (''productType'', typeDoc),
               (''productList'', BArr [entryMixed, entryPlain])]"

definition groupNoList :: doc where
  "groupNoList = [(''name'', BStr ''Motor''), (''key'', BStr ''MTR''),
                  (''productType'', typeDoc)]"

definition groupListNotArray :: doc where
  "groupListNotArray = [(''name'', BStr ''Travel''), (''productType'', typeDoc),
                        (''productList'', BStr ''none'')]"

definition groupNoType :: doc where
  "groupNoType = [(''name'', BStr ''Health''), (''key'', BStr ''HLT''),
                  (''productList'', BArr [entryPlain])]"

definition groupNoInsurer :: doc where
  "groupNoInsurer = [(''name'', BStr ''Health''), (''productType'', typeDoc),
                     (''productList'', BArr [entryNoInsurer])]"

text \<open>A group whose product list holds \<open>n\<close> entries, each with an insurer document.\<close>

definition groupOfSize :: "nat \<Rightarrow> doc" where
  "groupOfSize n = [(''productType'', BDoc []),
                    (''productList'', BArr (replicate n (BDoc [(''insurer'', BDoc [])])))]"

text \<open>A store that answers every query with the same documents.\<close>

definition fixedStore :: "doc list \<Rightarrow> unit Collection" where
  "fixedStore results = \<lparr>Find = (\<lambda>_ _. Inr ()), All = (\<lambda>_. Inr results)\<rparr>"

text \<open>A store whose find fails, and one whose cursor fails to decode.\<close>

definition failingFind :: "string \<Rightarrow> unit Collection" where
  "failingFind msg = \<lparr>Find = (\<lambda>_ _. Inl msg), All = (\<lambda>_. Inr [])\<rparr>"

definition failingDecode :: "string \<Rightarrow> unit Collection" where
  "failingDecode msg = \<lparr>Find = (\<lambda>_ _. Inr ()), All = (\<lambda>_. Inl msg)\<rparr>"

text \<open>The empty query string, and the one of \<^verbatim>\<open>?param=Health&page=2&limit=5\<close>.\<close>

definition noParams :: "string \<rightharpoonup> string" where
  "noParams = Map.empty"

definition healthPage2 :: "string \<rightharpoonup> string" where
  "healthPage2 = [''param'' \<mapsto> ''Health'', ''page'' \<mapsto> ''2'', ''limit'' \<mapsto> ''5'']"

text \<open>A query string whose page and limit are both large.\<close>

definition bigWindow :: "string \<rightharpoonup> string" where
  "bigWindow = [''page'' \<mapsto> ''4294967297'', ''limit'' \<mapsto> ''4294967296'']"

text \<open>The two products that \<open>groupTwo\<close> flattens to.\<close>

definition productAlpha :: Product where
  "productAlpha =
     \<lparr>ID = ''p1'', ProductName = ''Alpha'',
      ProductGroup = \<lparr>pgName = ''Health'', pgKey = ''HLT''\<rparr>,
      ProductType = \<lparr>ptName = ''Individual'', ptKey = ''IND''\<rparr>,
      Insurer = \<lparr>insID = ''i1'', InsurerCode = ''INSX'', InsurerName = ''Insurer X''\<rparr>,
      Brokers = Some [\<lparr>brKey = ''BRK-A'', ChannelName = ''Agency''\<rparr>,
                      \<lparr>brKey = ''BRK-B'', ChannelName = ''Online''\<rparr>],
      Status = ''ACTIVE''\<rparr>"

definition productBeta :: Product where
  "productBeta =
     \<lparr>ID = ''p2'', ProductName = ''Beta'',
      ProductGroup = \<lparr>pgName = ''Health'', pgKey = ''HLT''\<rparr>,
      ProductType = \<lparr>ptName = ''Individual'', ptKey = ''IND''\<rparr>,
      Insurer = \<lparr>insID = ''i1'', InsurerCode = ''INSX'', InsurerName = ''Insurer X''\<rparr>,
      Brokers = Some [],
      Status = ''INACTIVE''\<rparr>"

text \<open>\<^verbatim>\<open>strings.ToUpper\<close> on ASCII text, for the examples.\<close>

definition upperASCII :: "string \<Rightarrow> string" where
  "upperASCII = map (\<lambda>c. if 97 \<le> (of_char c :: nat) \<and> (of_char c :: nat) \<le> 122
                           then char_of (of_char c - 32 :: nat) else c)"

section \<open>Auxiliary facts\<close>

lemmas example_defs =
  brokerA_def brokerB_def insurerX_def mixedMap_def entryMixed_def entryPlain_def entryNoInsurer_def
  typeDoc_def groupTwo_def groupNoList_def groupListNotArray_def groupNoType_def
  groupNoInsurer_def productAlpha_def productBeta_def

lemmas flatten_defs =
  flatten_def collectBrokers_def buildProduct_def mustM_def getStringField_def
  append1_def elems_def

lemmas request_defs =
  requestPage_def requestLimit_def requestFilter_def requestOptions_def Query_def
  noParams_def healthPage2_def bigWindow_def

lemmas atoi_defs =
  effectivePage_def effectiveLimit_def Atoi_def isDigit_def minInt_def maxInt_def


lemma escape_spec_append: "escape_spec (xs @ ys) = escape_spec xs @ escape_spec ys"
  by (induction xs) simp_all

lemma escape_spec_plain: "\<forall>c\<in>set xs. \<not> isMeta c \<Longrightarrow> escape_spec xs = xs"
  by (induction xs) (simp_all add: isMeta_def)

lemma escape_spec_gap: "escape_spec (takeWhile (\<lambda>c. \<not> isMeta c) s) = takeWhile (\<lambda>c. \<not> isMeta c) s"
  by (rule escape_spec_plain) (auto dest: set_takeWhileD)

lemma replaceAllMeta_escape: "replaceAllMeta s = escape_spec s"
proof (induction s rule: replaceAllMeta.induct)
  case (1 src)
  let ?gap = "takeWhile (\<lambda>c. \<not> isMeta c) src"
  let ?rest = "dropWhile (\<lambda>c. \<not> isMeta c) src"
  have split: "src = ?gap @ ?rest" by simp
  show ?case
  proof (cases ?rest)
    case Nil
    have "replaceAllMeta src = ?gap"
      by (subst replaceAllMeta.simps) (simp only: Let_def Nil list.case)
    moreover have "escape_spec src = ?gap"
      using split Nil escape_spec_gap by (metis append_Nil2)
    ultimately show ?thesis by simp
  next
    case (Cons m after)
    then have meta: "isMeta m"
      by (metis hd_dropWhile list.sel(1) list.distinct(1))
    have ih: "replaceAllMeta after = escape_spec after"
      using "1.IH" Cons by simp
    have "replaceAllMeta src = ?gap @ backslash # m # escape_spec after"
      by (subst replaceAllMeta.simps) (simp add: Let_def Cons ih expandTemplate_def)
    moreover have "escape_spec src = escape_spec ?gap @ escape_spec (m # after)"
      using split Cons escape_spec_append by metis
    moreover have "escape_spec (m # after) = backslash # m # escape_spec after"
      using meta by (simp add: isMeta_def)
    ultimately show ?thesis
      by (simp only: escape_spec_gap)
  qed
qed

lemma elems_append1: "elems (append1 s x) = elems s @ [x]"
  by (simp add: append1_def elems_def)

lemma brokersLoop_elems:
  "elems (brokersLoop bs acc) = elems acc @ map brokerOf (filter isDocument bs)"
proof (induction bs arbitrary: acc)
  case Nil
  then show ?case by simp
next
  case (Cons b bs)
  show ?case
  proof (cases b)
    case (BDoc m)
    then show ?thesis
      by (simp add: Cons.IH elems_append1 isDocument_def brokerOf_def)
  qed (simp_all add: Cons.IH isDocument_def)
qed

lemma brokersLoop_Some: "\<exists>xs. brokersLoop bs (Some acc) = Some xs"
proof (induction bs arbitrary: acc)
  case Nil
  then show ?case by simp
next
  case (Cons b bs)
  show ?case
    by (cases b) (simp_all add: Cons.IH append1_def)
qed

lemma collectBrokers_Some: "\<exists>xs. collectBrokers productMap = Some xs"
  by (cases "assertA (map_of productMap ''brokers'')")
     (simp_all add: collectBrokers_def brokersLoop_Some)

lemma buildProduct_Inr:
  "buildProduct result productMap brokers = Inr p \<Longrightarrow> Brokers p = brokers"
  by (auto simp: buildProduct_def Let_def split: sum.splits)

lemma buildProduct_ok:
  assumes "map_of result ''productType'' = Some (BDoc t)"
    and "map_of productMap ''insurer'' = Some (BDoc i)"
  shows "\<exists>p. buildProduct result productMap brokers = Inr p"
  using assms by (simp add: buildProduct_def Let_def mustM_def)

lemma itemsLoop_elems:
  "itemsLoop result items acc = Inr acc' \<Longrightarrow>
     length (elems acc') = length (elems acc) + length (filter isDocument items)"
proof (induction items arbitrary: acc)
  case Nil
  then show ?case by simp
next
  case (Cons item items)
  show ?case
  proof (cases "assertM (Some item)")
    case None
    then show ?thesis using Cons by (simp add: isDocument_def)
  next
    case (Some productMap)
    with Cons.prems obtain product where
      "itemsLoop result items (append1 acc product) = Inr acc'"
      by (auto split: sum.splits)
    from Cons.IH [OF this] Some show ?thesis
      by (simp add: elems_append1 isDocument_def)
  qed
qed

lemma itemsLoop_nil:
  "itemsLoop result items acc = Inr acc' \<Longrightarrow>
     (acc' = None) = (acc = None \<and> filter isDocument items = [])"
proof (induction items arbitrary: acc)
  case Nil
  then show ?case by simp
next
  case (Cons item items)
  show ?case
  proof (cases "assertM (Some item)")
    case None
    then show ?thesis using Cons by (simp add: isDocument_def)
  next
    case (Some productMap)
    with Cons.prems obtain product where
      "itemsLoop result items (append1 acc product) = Inr acc'"
      by (auto split: sum.splits)
    from Cons.IH [OF this] Some show ?thesis
      by (simp add: append1_def isDocument_def)
  qed
qed

lemma itemsLoop_brokers:
  "itemsLoop result items acc = Inr acc' \<Longrightarrow>
     \<forall>p\<in>set (elems acc). Brokers p \<noteq> None \<Longrightarrow>
     \<forall>p\<in>set (elems acc'). Brokers p \<noteq> None"
proof (induction items arbitrary: acc)
  case Nil
  then show ?case by simp
next
  case (Cons item items)
  show ?case
  proof (cases "assertM (Some item)")
    case None
    then show ?thesis using Cons by simp
  next
    case (Some productMap)
    with Cons.prems obtain product where
      bp: "buildProduct result productMap (collectBrokers productMap) = Inr product" and
      rest: "itemsLoop result items (append1 acc product) = Inr acc'"
      by (auto split: sum.splits)
    have "Brokers product \<noteq> None"
      using buildProduct_Inr [OF bp] collectBrokers_Some [of productMap] by auto
    with Cons.prems(2) have "\<forall>p\<in>set (elems (append1 acc product)). Brokers p \<noteq> None"
      by (simp add: elems_append1)
    from Cons.IH [OF rest this] show ?thesis .
  qed
qed

lemma resultsLoop_elems:
  "resultsLoop results acc = Inr acc' \<Longrightarrow>
     length (elems acc') = length (elems acc) + sum_list (map groupItemCount results)"
proof (induction results arbitrary: acc)
  case Nil
  then show ?case by simp
next
  case (Cons result results)
  show ?case
  proof (cases "assertA (map_of result ''productList'')")
    case None
    then show ?thesis using Cons by (simp add: groupItemCount_def)
  next
    case (Some productList)
    with Cons.prems obtain mid where
      items: "itemsLoop result productList acc = Inr mid" and
      rest: "resultsLoop results mid = Inr acc'"
      by (auto split: sum.splits)
    from Cons.IH [OF rest] itemsLoop_elems [OF items] Some show ?thesis
      by (simp add: groupItemCount_def)
  qed
qed

lemma resultsLoop_nil:
  "resultsLoop results acc = Inr acc' \<Longrightarrow>
     (acc' = None) = (acc = None \<and> sum_list (map groupItemCount results) = 0)"
proof (induction results arbitrary: acc)
  case Nil
  then show ?case by simp
next
  case (Cons result results)
  show ?case
  proof (cases "assertA (map_of result ''productList'')")
    case None
    then show ?thesis using Cons by (simp add: groupItemCount_def)
  next
    case (Some productList)
    with Cons.prems obtain mid where
      items: "itemsLoop result productList acc = Inr mid" and
      rest: "resultsLoop results mid = Inr acc'"
      by (auto split: sum.splits)
    from Cons.IH [OF rest] itemsLoop_nil [OF items] Some show ?thesis
      by (simp add: groupItemCount_def)
  qed
qed

lemma resultsLoop_brokers:
  "resultsLoop results acc = Inr acc' \<Longrightarrow>
     \<forall>p\<in>set (elems acc). Brokers p \<noteq> None \<Longrightarrow>
     \<forall>p\<in>set (elems acc'). Brokers p \<noteq> None"
proof (induction results arbitrary: acc)
  case Nil
  then show ?case by simp
next
  case (Cons result results)
  show ?case
  proof (cases "assertA (map_of result ''productList'')")
    case None
    then show ?thesis using Cons by simp
  next
    case (Some productList)
    with Cons.prems obtain mid where
      items: "itemsLoop result productList acc = Inr mid" and
      rest: "resultsLoop results mid = Inr acc'"
      by (auto split: sum.splits)
    from Cons.IH [OF rest itemsLoop_brokers [OF items Cons.prems(2)]] show ?thesis .
  qed
qed

lemma resultsLoop_append:
  "resultsLoop (xs @ ys) acc =
     (case resultsLoop xs acc of Inl p \<Rightarrow> Inl p | Inr mid \<Rightarrow> resultsLoop ys mid)"
  by (induction xs arbitrary: acc) (simp_all split: option.splits sum.splits)

lemma wrapInt_id: "- (2 ^ 63) \<le> x \<Longrightarrow> x < 2 ^ 63 \<Longrightarrow> wrapInt x = x"
  by (simp add: wrapInt_def)

lemma Atoi_range: "Atoi s = Some v \<Longrightarrow> minInt \<le> v \<and> v \<le> maxInt"
  by (auto simp: Atoi_def Let_def split: if_splits)

lemma effectivePage_range: "1 \<le> effectivePage s \<and> effectivePage s \<le> maxInt"
  using Atoi_range [of s]
  by (auto simp: effectivePage_def maxInt_def split: option.splits)

lemma effectiveLimit_range: "1 \<le> effectiveLimit s \<and> effectiveLimit s \<le> maxInt"
  using Atoi_range [of s]
  by (auto simp: effectiveLimit_def maxInt_def split: option.splits)

lemma findOptions_exact:
  assumes "1 \<le> p" and "p \<le> maxInt" and "1 \<le> l" and "(p - 1) * l \<le> maxInt"
  shows "findOptions p l =
           \<lparr>Sort = [(''productList.productName'', 1)], Skip = (p - 1) * l, Limit = l\<rparr>"
proof -
  have a: "wrapInt (p - 1) = p - 1"
    using assms by (intro wrapInt_id) (simp_all add: maxInt_def)
  have nn: "0 \<le> (p - 1) * l" using assms by simp
  have b: "wrapInt ((p - 1) * l) = (p - 1) * l"
  proof (rule wrapInt_id)
    have "- (2 ^ 63) \<le> (0::int)" by simp
    then show "- (2 ^ 63) \<le> (p - 1) * l" using nn by (rule order_trans)
    show "(p - 1) * l < 2 ^ 63" using assms(4) by (simp add: maxInt_def)
  qed
  show ?thesis by (simp add: findOptions_def a b)
qed

lemma GetProducts_fst:
  "fst (GetProducts toUpper coll c) =
     (case fetch toUpper coll c of
        Inl err \<Rightarrow> Inr (SendString 500 err)
      | Inr results \<Rightarrow>
          (case flatten results of
             Inl p \<Rightarrow> Inl p
           | Inr products \<Rightarrow> Inr (JSON 200 \<lparr>Data = products\<rparr>)))"
  by (simp add: GetProducts_def fetch_def requestFilter_def requestOptions_def
      requestPage_def requestLimit_def Let_def split: sum.splits)

lemma GetProducts_snd:
  "snd (GetProducts toUpper coll c) =
     (case Find coll (requestFilter toUpper c) (requestOptions c) of
        Inl err \<Rightarrow> [CallFind (requestFilter toUpper c) (requestOptions c)]
      | Inr cursor \<Rightarrow> [CallFind (requestFilter toUpper c) (requestOptions c), CallAll, CallClose])"
  by (simp add: GetProducts_def requestFilter_def requestOptions_def
      requestPage_def requestLimit_def Let_def split: sum.splits)

lemma itemsLoop_ok:
  assumes "map_of result ''productType'' = Some (BDoc t)"
    and "\<forall>m. BDoc m \<in> set items \<longrightarrow> (\<exists>i. map_of m ''insurer'' = Some (BDoc i))"
  shows "\<exists>acc'. itemsLoop result items acc = Inr acc'"
  using assms(2)
proof (induction items arbitrary: acc)
  case Nil
  then show ?case by simp
next
  case (Cons item items)
  show ?case
  proof (cases item)
    case (BDoc m)
    with Cons.prems obtain i where "map_of m ''insurer'' = Some (BDoc i)" by auto
    from buildProduct_ok [OF assms(1) this] obtain p where
      "buildProduct result m (collectBrokers m) = Inr p" by blast
    with BDoc Cons show ?thesis by simp
  qed (use Cons in simp_all)
qed

lemma flatten_groupOfSize:
  "\<exists>ps. flatten [groupOfSize n] = Inr ps \<and> length (elems ps) = n"
proof -
  let ?items = "replicate n (BDoc [(''insurer'', BDoc [])])"
  have "\<exists>acc'. itemsLoop (groupOfSize n) ?items None = Inr acc'"
    by (rule itemsLoop_ok [where t = "[]"]) (auto simp: groupOfSize_def)
  then obtain acc' where ok: "itemsLoop (groupOfSize n) ?items None = Inr acc'" ..
  then have fl: "flatten [groupOfSize n] = Inr acc'"
    by (simp add: flatten_def groupOfSize_def)
  have "length (elems acc') = length (filter isDocument ?items)"
    using itemsLoop_elems [OF ok] by (simp add: elems_def)
  also have "\<dots> = n" by (simp add: isDocument_def)
  finally show ?thesis using fl by blast
qed

lemma flatten_replicate_empty:
  "resultsLoop (replicate n (groupOfSize 0)) acc = Inr acc"
  by (induction n) (simp_all add: groupOfSize_def)

lemma flatten_skip:
  assumes "assertA (map_of g ''productList'') = None"
  shows "resultsLoop (pre @ g # post) acc = resultsLoop (pre @ post) acc"
  using assms by (simp add: resultsLoop_append split: sum.splits)

lemma flatten_groupTwo: "flatten [groupTwo] = Inr (Some [productAlpha, productBeta])"
  by (simp add: example_defs flatten_defs)

lemma fetch_fixedStore: "fetch toUpper (fixedStore results) c = Inr results"
  by (simp add: fetch_def fixedStore_def)

lemma groupItemCount_all:
  assumes "\<forall>l. assertA (map_of r ''productList'') = Some l \<longrightarrow> list_all isDocument l"
  shows "groupItemCount r = length (elems (assertA (map_of r ''productList'')))"
proof (cases "assertA (map_of r ''productList'')")
  case None
  then show ?thesis by (simp add: groupItemCount_def elems_def)
next
  case (Some l)
  with assms have "filter isDocument l = l" by (simp add: list_all_iff)
  with Some show ?thesis by (simp add: groupItemCount_def elems_def)
qed

lemma collectBrokers_array:
  assumes "map_of productMap ''brokers'' = Some (BArr bs)"
  shows "collectBrokers productMap = Some (map brokerOf (filter isDocument bs))"
proof -
  obtain xs where xs: "brokersLoop bs (Some []) = Some xs"
    using brokersLoop_Some by blast
  with brokersLoop_elems [of bs "Some []"] have "xs = map brokerOf (filter isDocument bs)"
    by (simp add: elems_def)
  with xs assms show ?thesis by (simp add: collectBrokers_def)
qed

lemma findCalls_GetProducts: "findCalls (snd (GetProducts toUpper coll c)) = 1"
  by (simp add: GetProducts_snd findCalls_def split: sum.splits)

lemma hd_calls_GetProducts:
  "hd (snd (GetProducts toUpper coll c)) = CallFind (requestFilter toUpper c) (requestOptions c)"
  by (simp add: GetProducts_snd split: sum.splits)

lemma requestOptions_noParams:
  "requestOptions noParams = \<lparr>Sort = [(''productList.productName'', 1)], Skip = 0, Limit = 10\<rparr>"
  by (simp add: request_defs atoi_defs findOptions_def wrapInt_def)

lemma requestFilter_noParams: "requestFilter toUpper noParams = []"
  by (simp add: request_defs buildFilter_def)

section \<open>The claims\<close>

text \<open>
  Claim C1. Whenever the handler answers a decoded result set with a JSON response, the
  number of products in its \<open>data\<close> equals the number of well-formed (document) entries
  of the product lists of all returned group documents, summed group by group; it is not
  the number of group documents. Where every entry of every product list is a document,
  each group contributes one product per entry of its list.
\<close>

theorem C1_response_count:
  assumes "fetch toUpper coll c = Inr results"
    and "fst (GetProducts toUpper coll c) = Inr reply"
  shows "\<exists>ps. reply = JSON 200 \<lparr>Data = ps\<rparr> \<and>
           length (elems ps) = sum_list (map groupItemCount results) \<and>
           ((\<forall>r\<in>set results. \<forall>l. assertA (map_of r ''productList'') = Some l
                                   \<longrightarrow> list_all isDocument l) \<longrightarrow>
            length (elems ps) =
              sum_list (map (\<lambda>r. length (elems (assertA (map_of r ''productList'')))) results))"
proof -
  from assms obtain ps where fl: "flatten results = Inr ps" and r: "reply = JSON 200 \<lparr>Data = ps\<rparr>"
    by (auto simp: GetProducts_fst split: sum.splits)
  have n: "length (elems ps) = sum_list (map groupItemCount results)"
    using resultsLoop_elems [of results None ps] fl by (simp add: flatten_def elems_def)
  have m: "map groupItemCount results =
          map (\<lambda>r. length (elems (assertA (map_of r ''productList'')))) results"
    if all: "\<forall>r\<in>set results. \<forall>l. assertA (map_of r ''productList'') = Some l
                                   \<longrightarrow> list_all isDocument l"
  proof (rule map_cong [OF refl])
    fix r assume "r \<in> set results"
    with all have "\<forall>l. assertA (map_of r ''productList'') = Some l \<longrightarrow> list_all isDocument l"
      by blast
    then show "groupItemCount r = length (elems (assertA (map_of r ''productList'')))"
      by (rule groupItemCount_all)
  qed
  have t: "(\<forall>r\<in>set results. \<forall>l. assertA (map_of r ''productList'') = Some l
                                   \<longrightarrow> list_all isDocument l) \<longrightarrow>
            length (elems ps) =
              sum_list (map (\<lambda>r. length (elems (assertA (map_of r ''productList'')))) results)"
  proof
    assume all: "\<forall>r\<in>set results. \<forall>l. assertA (map_of r ''productList'') = Some l
                                   \<longrightarrow> list_all isDocument l"
    from n show "length (elems ps) =
              sum_list (map (\<lambda>r. length (elems (assertA (map_of r ''productList'')))) results)"
      by (simp only: m [OF all])
  qed
  from r n t show ?thesis by blast
qed

text \<open>One group document with two entries gives two products.\<close>

theorem C1_response_count_witness:
  "fetch upperASCII (fixedStore [groupTwo]) noParams = Inr [groupTwo] \<and>
   fst (GetProducts upperASCII (fixedStore [groupTwo]) noParams) =
     Inr (JSON 200 \<lparr>Data = Some [productAlpha, productBeta]\<rparr>) \<and>
   length (elems (Some [productAlpha, productBeta])) = sum_list (map groupItemCount [groupTwo]) \<and>
   sum_list (map groupItemCount [groupTwo]) = 2 \<and> length [groupTwo] = 1"
proof -
  have h1: "fetch upperASCII (fixedStore [groupTwo]) noParams = Inr [groupTwo]"
    by (rule fetch_fixedStore)
  have h2: "fst (GetProducts upperASCII (fixedStore [groupTwo]) noParams) =
              Inr (JSON 200 \<lparr>Data = Some [productAlpha, productBeta]\<rparr>)"
    by (simp add: GetProducts_fst h1 flatten_groupTwo)
  from C1_response_count [OF h1 h2]
  have "length (elems (Some [productAlpha, productBeta])) = sum_list (map groupItemCount [groupTwo])"
    by auto
  moreover have "sum_list (map groupItemCount [groupTwo]) = 2"
    by (simp add: groupItemCount_def isDocument_def example_defs)
  ultimately show ?thesis using h1 h2 by simp
qed

text \<open>
  Claim C2. The claim says that a missing or non-document \<open>productType\<close> of a group, or
  \<open>insurer\<close> of an entry, is recovered locally and never aborts the flattening. The code
  asserts both to \<^verbatim>\<open>bson.M\<close> with the one-result form before \<open>getStringField\<close> can
  recover: on a group without \<open>productType\<close> and on an entry without \<open>insurer\<close> the
  flattening panics and the handler produces no response, also when another group of
  the same result set is well-formed.
\<close>

theorem C2_unchecked_assertion_panics:
  "flatten [groupNoType] = Inl (InterfaceConversion ''productType'') \<and>
   flatten [groupNoInsurer] = Inl (InterfaceConversion ''insurer'') \<and>
   fst (GetProducts upperASCII (fixedStore [groupNoType]) noParams) =
     Inl (InterfaceConversion ''productType'') \<and>
   fst (GetProducts upperASCII (fixedStore [groupTwo, groupNoInsurer]) noParams) =
     Inl (InterfaceConversion ''insurer'')"
proof -
  have a: "flatten [groupNoType] = Inl (InterfaceConversion ''productType'')"
    by (simp add: example_defs flatten_defs)
  have b: "flatten [groupNoInsurer] = Inl (InterfaceConversion ''insurer'')"
    by (simp add: example_defs flatten_defs)
  have c: "flatten [groupTwo, groupNoInsurer] = Inl (InterfaceConversion ''insurer'')"
    by (simp add: example_defs flatten_defs)
  show ?thesis
    by (simp add: GetProducts_fst fetch_fixedStore a b c)
qed

text \<open>
  Claim C3. For every input string, \<open>SanitizeString\<close> returns the input with a backslash
  put immediately before each occurrence of one of the fourteen characters of the class
  and nothing else changed: the replace-all loop of the code computes what the
  specification's walk over the input computes. An input with none of these characters
  is returned as it is.
\<close>

theorem C3_sanitize_escapes:
  "SanitizeString s = escape_spec s \<and>
   ((\<forall>c\<in>set s. \<not> isMeta c) \<longrightarrow> SanitizeString s = s)"
  by (simp add: SanitizeString_def replaceAllMeta_escape escape_spec_plain)

text \<open>The same at \<open>Health\<close>, which has no such character, and at \<open>a.b(c)\<close>, which has three.\<close>

theorem C3_sanitize_escapes_witness:
  "list_all (\<lambda>c. \<not> isMeta c) ''Health'' \<and> SanitizeString ''Health'' = ''Health'' \<and>
   SanitizeString ''a.b(c)'' =
     [CHR ''a'', backslash, CHR ''.'', CHR ''b'', backslash, CHR ''('', CHR ''c'', backslash, CHR '')'']"
proof -
  have h: "\<forall>c\<in>set ''Health''. \<not> isMeta c"
    by (simp add: isMeta_def metachars_def backslash_def)
  from C3_sanitize_escapes [of "''Health''"] h
  have a: "SanitizeString ''Health'' = ''Health''" by blast
  from C3_sanitize_escapes [of "''a.b(c)''"]
  have "SanitizeString ''a.b(c)'' = escape_spec ''a.b(c)''" by blast
  then have b: "SanitizeString ''a.b(c)'' =
     [CHR ''a'', backslash, CHR ''.'', CHR ''b'', backslash, CHR ''('', CHR ''c'', backslash, CHR '')'']"
    by (simp add: metachars_def backslash_def)
  from h have "list_all (\<lambda>c. \<not> isMeta c) ''Health''"
    by (simp only: list_all_iff)
  with a b show ?thesis by blast
qed

text \<open>
  Claim C4, amended. Go's \<^verbatim>\<open>int\<close> is 64 bits wide. For an effective page \<open>p\<close> and limit
  \<open>l\<close> with \<open>(p - 1) * l\<close> at most \<open>2^63 - 1\<close>, the handler makes one find call, whose
  options are: sort by \<open>productList.productName\<close> ascending, skip exactly \<open>(p - 1) * l\<close>,
  limit \<open>l\<close>. The options go to the store, which applies them to group documents; the
  handler then flattens every document the store returns. So a page of at most \<open>l\<close>
  group documents can flatten to more than \<open>l\<close> entries, and a page of \<open>l\<close> group
  documents to fewer.
\<close>

theorem C4_pagination_window:
  assumes "(requestPage c - 1) * requestLimit c \<le> maxInt"
  shows "requestOptions c =
           \<lparr>Sort = [(''productList.productName'', 1)],
            Skip = (requestPage c - 1) * requestLimit c,
            Limit = requestLimit c\<rparr> \<and>
         hd (snd (GetProducts toUpper coll c)) =
           CallFind (requestFilter toUpper c) (requestOptions c) \<and>
         findCalls (snd (GetProducts toUpper coll c)) = 1 \<and>
         (\<forall>results. fetch toUpper coll c = Inr results \<longrightarrow>
            fst (GetProducts toUpper coll c) =
              (case flatten results of
                 Inl p \<Rightarrow> Inl p
               | Inr ps \<Rightarrow> Inr (JSON 200 \<lparr>Data = ps\<rparr>))) \<and>
         (\<exists>results ps. int (length results) \<le> requestLimit c \<and> flatten results = Inr ps \<and>
                       requestLimit c < int (length (elems ps))) \<and>
         (\<exists>results ps. int (length results) = requestLimit c \<and> flatten results = Inr ps \<and>
                       int (length (elems ps)) < requestLimit c)"
proof -
  have pr: "1 \<le> requestPage c \<and> requestPage c \<le> maxInt"
    unfolding requestPage_def by (rule effectivePage_range)
  have lr: "1 \<le> requestLimit c \<and> requestLimit c \<le> maxInt"
    unfolding requestLimit_def by (rule effectiveLimit_range)
  have o: "requestOptions c =
           \<lparr>Sort = [(''productList.productName'', 1)],
            Skip = (requestPage c - 1) * requestLimit c,
            Limit = requestLimit c\<rparr>"
    unfolding requestOptions_def using pr lr assms by (intro findOptions_exact) simp_all
  have fl: "\<forall>results. fetch toUpper coll c = Inr results \<longrightarrow>
            fst (GetProducts toUpper coll c) =
              (case flatten results of
                 Inl p \<Rightarrow> Inl p
               | Inr ps \<Rightarrow> Inr (JSON 200 \<lparr>Data = ps\<rparr>))"
    by (simp add: GetProducts_fst)
  obtain ps where ps: "flatten [groupOfSize (nat (requestLimit c) + 1)] = Inr ps"
    and n: "length (elems ps) = nat (requestLimit c) + 1"
    using flatten_groupOfSize by blast
  have more: "\<exists>results ps. int (length results) \<le> requestLimit c \<and> flatten results = Inr ps \<and>
                       requestLimit c < int (length (elems ps))"
  proof (intro exI conjI)
    show "int (length [groupOfSize (nat (requestLimit c) + 1)]) \<le> requestLimit c"
      using lr by simp
    show "flatten [groupOfSize (nat (requestLimit c) + 1)] = Inr ps" by (rule ps)
    show "requestLimit c < int (length (elems ps))" using n lr by simp
  qed
  have fewer: "\<exists>results ps. int (length results) = requestLimit c \<and> flatten results = Inr ps \<and>
                       int (length (elems ps)) < requestLimit c"
  proof (intro exI conjI)
    show "int (length (replicate (nat (requestLimit c)) (groupOfSize 0))) = requestLimit c"
      using lr by simp
    show "flatten (replicate (nat (requestLimit c)) (groupOfSize 0)) = Inr None"
      by (simp add: flatten_def flatten_replicate_empty)
    show "int (length (elems (None :: Product slice))) < requestLimit c"
      using lr by (simp add: elems_def)
  qed
  from o fl more fewer show ?thesis
    by (simp only: hd_calls_GetProducts findCalls_GetProducts simp_thms)
qed

text \<open>The request \<^verbatim>\<open>?param=Health&page=2&limit=5\<close>: skip 5, limit 5.\<close>

theorem C4_pagination_window_witness:
  "(requestPage healthPage2 - 1) * requestLimit healthPage2 \<le> maxInt \<and>
   requestPage healthPage2 = 2 \<and> requestLimit healthPage2 = 5 \<and>
   requestOptions healthPage2 =
     \<lparr>Sort = [(''productList.productName'', 1)], Skip = 5, Limit = 5\<rparr> \<and>
   snd (GetProducts upperASCII (fixedStore [groupTwo]) healthPage2) =
     [CallFind (requestFilter upperASCII healthPage2)
        \<lparr>Sort = [(''productList.productName'', 1)], Skip = 5, Limit = 5\<rparr>,
      CallAll, CallClose] \<and>
   fst (GetProducts upperASCII (fixedStore [groupTwo]) healthPage2) =
     Inr (JSON 200 \<lparr>Data = Some [productAlpha, productBeta]\<rparr>)"
proof -
  have p: "requestPage healthPage2 = 2" and l: "requestLimit healthPage2 = 5"
    by (simp_all add: request_defs atoi_defs)
  have h: "(requestPage healthPage2 - 1) * requestLimit healthPage2 \<le> maxInt"
    by (simp add: p l maxInt_def)
  from C4_pagination_window [OF h, of upperASCII "fixedStore [groupTwo]"]
  have o: "requestOptions healthPage2 =
     \<lparr>Sort = [(''productList.productName'', 1)], Skip = 5, Limit = 5\<rparr>"
    and f: "fst (GetProducts upperASCII (fixedStore [groupTwo]) healthPage2) =
     Inr (JSON 200 \<lparr>Data = Some [productAlpha, productBeta]\<rparr>)"
    by (simp_all add: p l fetch_fixedStore flatten_groupTwo)
  have s: "snd (GetProducts upperASCII (fixedStore [groupTwo]) healthPage2) =
     [CallFind (requestFilter upperASCII healthPage2)
        \<lparr>Sort = [(''productList.productName'', 1)], Skip = 5, Limit = 5\<rparr>,
      CallAll, CallClose]"
    by (simp add: GetProducts_snd fixedStore_def o)
  from h p l o s f show ?thesis by simp
qed

text \<open>
  As the claim is written, for every page and limit: page 4294967297 with limit
  4294967296 are both accepted by \<open>Atoi\<close>; \<open>(p - 1) * l\<close> is \<open>2^64\<close>, the product wraps
  around and the find call carries skip 0.
\<close>

theorem C4_skip_wraps_counterexample:
  "requestPage bigWindow = 4294967297 \<and>
   requestLimit bigWindow = 4294967296 \<and>
   (requestPage bigWindow - 1) * requestLimit bigWindow = 18446744073709551616 \<and>
   Skip (requestOptions bigWindow) = 0 \<and>
   Skip (requestOptions bigWindow) \<noteq> (requestPage bigWindow - 1) * requestLimit bigWindow \<and>
   hd (snd (GetProducts upperASCII (fixedStore []) bigWindow)) =
     CallFind [] \<lparr>Sort = [(''productList.productName'', 1)], Skip = 0, Limit = 4294967296\<rparr>"
proof -
  have p: "requestPage bigWindow = 4294967297"
    by (simp add: request_defs atoi_defs)
  have l: "requestLimit bigWindow = 4294967296"
    by (simp add: request_defs atoi_defs)
  have o: "requestOptions bigWindow =
             \<lparr>Sort = [(''productList.productName'', 1)], Skip = 0, Limit = 4294967296\<rparr>"
    by (simp add: requestOptions_def p l findOptions_def wrapInt_def)
  have f: "requestFilter upperASCII bigWindow = []"
    by (simp add: request_defs buildFilter_def)
  show ?thesis
    by (simp add: p l o f hd_calls_GetProducts)
qed

text \<open>
  Claim C5. A page string that \<open>Atoi\<close> rejects, or that parses to a value below 1, gives
  the effective page 1; such a limit string gives the effective limit 10. The same holds
  when the string arrives as the request's \<open>page\<close> or \<open>limit\<close> query parameter.
\<close>

theorem C5_invalid_page_limit:
  assumes "Atoi s = None \<or> (\<exists>n. Atoi s = Some n \<and> n < 1)"
  shows "effectivePage s = 1 \<and> effectiveLimit s = 10 \<and>
         (c ''page'' = Some s \<longrightarrow> requestPage c = 1) \<and>
         (c ''limit'' = Some s \<longrightarrow> requestLimit c = 10)"
proof -
  have p: "effectivePage s = 1" and l: "effectiveLimit s = 10"
    using assms by (auto simp: effectivePage_def effectiveLimit_def)
  have p1: "effectivePage ''1'' = 1" and l10: "effectiveLimit ''10'' = 10"
    by (simp_all add: atoi_defs)
  show ?thesis
    using p l p1 l10 by (simp add: requestPage_def requestLimit_def Query_def)
qed

text \<open>The three strings of the specification: \<open>0\<close>, \<open>-3\<close> and \<open>abc\<close>.\<close>

theorem C5_invalid_page_limit_witness:
  "Atoi ''0'' = Some 0 \<and> effectivePage ''0'' = 1 \<and> effectiveLimit ''0'' = 10 \<and>
   Atoi ''-3'' = Some (- 3) \<and> effectivePage ''-3'' = 1 \<and> effectiveLimit ''-3'' = 10 \<and>
   Atoi ''abc'' = None \<and> effectivePage ''abc'' = 1 \<and> effectiveLimit ''abc'' = 10 \<and>
   requestPage [''page'' \<mapsto> ''abc''] = 1 \<and> requestLimit [''limit'' \<mapsto> ''-3''] = 10"
proof -
  have z: "Atoi ''0'' = Some 0" and m: "Atoi ''-3'' = Some (- 3)" and a: "Atoi ''abc'' = None"
    by (simp_all add: atoi_defs)
  have hz: "Atoi ''0'' = None \<or> (\<exists>n. Atoi ''0'' = Some n \<and> n < 1)" using z by simp
  have hm: "Atoi ''-3'' = None \<or> (\<exists>n. Atoi ''-3'' = Some n \<and> n < 1)" using m by simp
  have ha: "Atoi ''abc'' = None \<or> (\<exists>n. Atoi ''abc'' = Some n \<and> n < 1)" using a by simp
  from C5_invalid_page_limit [OF hz, of Map.empty]
       C5_invalid_page_limit [OF hm, of "[''limit'' \<mapsto> ''-3'']"]
       C5_invalid_page_limit [OF ha, of "[''page'' \<mapsto> ''abc'']"] z m a
  show ?thesis by simp
qed

text \<open>
  Claim C6. For an entry whose \<open>brokers\<close> field is an array, the brokers collected are
  exactly the document items of the array, in order, each turned into a broker; every
  other item is dropped on its own. The product built from the entry carries these
  brokers, and the entry is flattened into one product whenever the group's product type
  and the entry's insurer are documents, whatever the brokers array holds.
\<close>

theorem C6_malformed_brokers_dropped:
  assumes "map_of productMap ''brokers'' = Some (BArr bs)"
  shows "collectBrokers productMap = Some (map brokerOf (filter isDocument bs)) \<and>
         (\<forall>p. buildProduct result productMap (collectBrokers productMap) = Inr p \<longrightarrow>
              Brokers p = Some (map brokerOf (filter isDocument bs))) \<and>
         (\<forall>t i. map_of result ''productType'' = Some (BDoc t) \<longrightarrow>
                map_of productMap ''insurer'' = Some (BDoc i) \<longrightarrow>
                (\<exists>p. itemsLoop result [BDoc productMap] acc = Inr (append1 acc p) \<and>
                     Brokers p = Some (map brokerOf (filter isDocument bs))))"
proof -
  note cb = collectBrokers_array [OF assms]
  have b: "Brokers p = Some (map brokerOf (filter isDocument bs))"
    if "buildProduct result productMap (collectBrokers productMap) = Inr p" for p
    using buildProduct_Inr [OF that] cb by simp
  have c: "\<exists>p. itemsLoop result [BDoc productMap] acc = Inr (append1 acc p) \<and>
               Brokers p = Some (map brokerOf (filter isDocument bs))"
    if "map_of result ''productType'' = Some (BDoc t)"
      and "map_of productMap ''insurer'' = Some (BDoc i)" for t i
  proof -
    from buildProduct_ok [OF that] obtain p where
      p: "buildProduct result productMap (collectBrokers productMap) = Inr p" by blast
    then have "itemsLoop result [BDoc productMap] acc = Inr (append1 acc p)" by simp
    with b [OF p] show ?thesis by blast
  qed
  from cb b c show ?thesis by blast
qed

text \<open>Two broker documents around a string: two brokers, and the request succeeds.\<close>

theorem C6_malformed_brokers_dropped_witness:
  "map_of mixedMap ''brokers'' = Some (BArr [brokerA, BStr ''n/a'', brokerB]) \<and>
   collectBrokers mixedMap =
     Some [\<lparr>brKey = ''BRK-A'', ChannelName = ''Agency''\<rparr>,
           \<lparr>brKey = ''BRK-B'', ChannelName = ''Online''\<rparr>] \<and>
   itemsLoop groupTwo [BDoc mixedMap] None = Inr (Some [productAlpha]) \<and>
   fst (GetProducts upperASCII (fixedStore [groupTwo]) noParams) =
     Inr (JSON 200 \<lparr>Data = Some [productAlpha, productBeta]\<rparr>)"
proof -
  have h: "map_of mixedMap ''brokers'' = Some (BArr [brokerA, BStr ''n/a'', brokerB])"
    by (simp add: mixedMap_def)
  have f: "map brokerOf (filter isDocument [brokerA, BStr ''n/a'', brokerB]) =
             [\<lparr>brKey = ''BRK-A'', ChannelName = ''Agency''\<rparr>,
              \<lparr>brKey = ''BRK-B'', ChannelName = ''Online''\<rparr>]"
    by (simp add: isDocument_def brokerOf_def getStringField_def brokerA_def brokerB_def)
  from C6_malformed_brokers_dropped [OF h, of groupTwo None]
  have cb: "collectBrokers mixedMap = Some (map brokerOf (filter isDocument [brokerA, BStr ''n/a'', brokerB]))"
    by blast
  have i: "itemsLoop groupTwo [BDoc mixedMap] None = Inr (Some [productAlpha])"
    by (simp add: example_defs flatten_defs)
  have g: "fst (GetProducts upperASCII (fixedStore [groupTwo]) noParams) =
     Inr (JSON 200 \<lparr>Data = Some [productAlpha, productBeta]\<rparr>)"
    by (simp add: GetProducts_fst fetch_fixedStore flatten_groupTwo)
  from h cb f i g show ?thesis by simp
qed

text \<open>
  Claim C7. A group document whose \<open>productList\<close> is missing or is not an array
  contributes no entry: the flattening of a result set that contains it is the flattening
  of the result set without it, so the groups before and after it are processed as if it
  were absent, and the group alone gives the nil product list with no error.
\<close>

theorem C7_group_without_list_skipped:
  assumes "assertA (map_of g ''productList'') = None"
  shows "flatten (pre @ g # post) = flatten (pre @ post) \<and>
         flatten [g] = Inr None \<and>
         groupItemCount g = 0 \<and>
         (fetch toUpper coll c = Inr (pre @ g # post) \<longrightarrow>
            fst (GetProducts toUpper coll c) =
              (case flatten (pre @ post) of
                 Inl p \<Rightarrow> Inl p
               | Inr ps \<Rightarrow> Inr (JSON 200 \<lparr>Data = ps\<rparr>)))"
proof -
  have a: "flatten (pre @ g # post) = flatten (pre @ post)"
    using flatten_skip [OF assms] by (simp add: flatten_def)
  have b: "flatten [g] = Inr None"
    using assms by (simp add: flatten_def)
  have c: "groupItemCount g = 0"
    using assms by (simp add: groupItemCount_def)
  show ?thesis
    by (simp add: a b c GetProducts_fst)
qed

text \<open>A group without the field and one whose field is a string, around a good group.\<close>

theorem C7_group_without_list_skipped_witness:
  "assertA (map_of groupNoList ''productList'') = None \<and>
   assertA (map_of groupListNotArray ''productList'') = None \<and>
   flatten [groupNoList] = Inr None \<and>
   flatten [groupNoList, groupTwo, groupListNotArray] = Inr (Some [productAlpha, productBeta]) \<and>
   fst (GetProducts upperASCII (fixedStore [groupNoList, groupTwo]) noParams) =
     Inr (JSON 200 \<lparr>Data = Some [productAlpha, productBeta]\<rparr>)"
proof -
  have h1: "assertA (map_of groupNoList ''productList'') = None"
    by (simp add: groupNoList_def)
  have h2: "assertA (map_of groupListNotArray ''productList'') = None"
    by (simp add: groupListNotArray_def)
  have f: "fetch upperASCII (fixedStore [groupNoList, groupTwo]) noParams = Inr ([] @ groupNoList # [groupTwo])"
    by (simp add: fetch_fixedStore)
  from C7_group_without_list_skipped [OF h1, of "[]" "[groupTwo, groupListNotArray]", THEN conjunct1]
  have a: "flatten [groupNoList, groupTwo, groupListNotArray] = flatten [groupTwo, groupListNotArray]"
    by simp
  from C7_group_without_list_skipped [OF h2, of "[groupTwo]" "[]", THEN conjunct1]
  have b: "flatten [groupTwo, groupListNotArray] = flatten [groupTwo]"
    by simp
  from C7_group_without_list_skipped [OF h1, of "[]" "[]", THEN conjunct2, THEN conjunct1]
  have c: "flatten [groupNoList] = Inr None" by simp
  from C7_group_without_list_skipped [OF h1, of "[]" "[groupTwo]" upperASCII "fixedStore [groupNoList, groupTwo]" noParams] f
  have d: "fst (GetProducts upperASCII (fixedStore [groupNoList, groupTwo]) noParams) =
     Inr (JSON 200 \<lparr>Data = Some [productAlpha, productBeta]\<rparr>)"
    by (simp add: flatten_groupTwo)
  from h1 h2 a b c d show ?thesis by (simp add: flatten_groupTwo)
qed

text \<open>
  Claim C8. When the \<open>param\<close> and \<open>status\<close> query parameters are both empty, the filter
  handed to the store is the empty document: it has no \<open>$or\<close> member and no
  \<open>productList.productStatus\<close> member.
\<close>

theorem C8_empty_filter:
  assumes "Query c ''param'' [] = []" and "Query c ''status'' [] = []"
  shows "requestFilter toUpper c = [] \<and>
         map_of (requestFilter toUpper c) ''$or'' = None \<and>
         map_of (requestFilter toUpper c) ''productList.productStatus'' = None \<and>
         hd (snd (GetProducts toUpper coll c)) = CallFind [] (requestOptions c)"
proof -
  have f: "requestFilter toUpper c = []"
    using assms by (simp add: requestFilter_def buildFilter_def)
  show ?thesis
    by (simp add: f GetProducts_snd split: sum.splits)
qed

text \<open>A request with no query parameters sends the empty filter with the default window.\<close>

theorem C8_empty_filter_witness:
  "Query noParams ''param'' [] = [] \<and> Query noParams ''status'' [] = [] \<and>
   requestFilter upperASCII noParams = [] \<and>
   snd (GetProducts upperASCII (fixedStore []) noParams) =
     [CallFind [] \<lparr>Sort = [(''productList.productName'', 1)], Skip = 0, Limit = 10\<rparr>,
      CallAll, CallClose]"
proof -
  have h1: "Query noParams ''param'' [] = []" and h2: "Query noParams ''status'' [] = []"
    by (simp_all add: Query_def noParams_def)
  have o: "requestOptions noParams =
             \<lparr>Sort = [(''productList.productName'', 1)], Skip = 0, Limit = 10\<rparr>"
    by (simp add: request_defs atoi_defs findOptions_def wrapInt_def)
  from C8_empty_filter [OF h1 h2, of upperASCII "fixedStore []"] h1 h2 o
  show ?thesis by (simp add: GetProducts_snd fixedStore_def)
qed

text \<open>
  Claim C9. If find returns an error, or find succeeds and decoding the result set
  returns an error, the handler replies with status 500 and the error's text as a plain
  body (no JSON, so no \<open>data\<close> member). It calls find exactly once on every path. A reply
  with a status other than 200 arises only from an error of find or of the decoding.
\<close>

theorem C9_query_errors_surface:
  "(Find coll (requestFilter toUpper c) (requestOptions c) = Inl err \<longrightarrow>
      GetProducts toUpper coll c =
        (Inr (SendString 500 err), [CallFind (requestFilter toUpper c) (requestOptions c)])) \<and>
   (Find coll (requestFilter toUpper c) (requestOptions c) = Inr cursor \<and>
    All coll cursor = Inl err \<longrightarrow>
      GetProducts toUpper coll c =
        (Inr (SendString 500 err),
         [CallFind (requestFilter toUpper c) (requestOptions c), CallAll, CallClose])) \<and>
   statusOf (SendString 500 err) = 500 \<and>
   bodyOf (SendString 500 err) = PlainText err \<and>
   findCalls (snd (GetProducts toUpper coll c)) = 1 \<and>
   (\<forall>r. fst (GetProducts toUpper coll c) = Inr r \<longrightarrow> statusOf r \<noteq> 200 \<longrightarrow>
        (\<exists>e. fetch toUpper coll c = Inl e \<and> r = SendString 500 e))"
proof -
  have a: "GetProducts toUpper coll c =
        (Inr (SendString 500 err), [CallFind (requestFilter toUpper c) (requestOptions c)])"
    if "Find coll (requestFilter toUpper c) (requestOptions c) = Inl err"
    using that by (intro prod_eqI) (simp_all add: GetProducts_fst GetProducts_snd fetch_def)
  have b: "GetProducts toUpper coll c =
        (Inr (SendString 500 err),
         [CallFind (requestFilter toUpper c) (requestOptions c), CallAll, CallClose])"
    if "Find coll (requestFilter toUpper c) (requestOptions c) = Inr cursor"
      and "All coll cursor = Inl err"
    using that by (intro prod_eqI) (simp_all add: GetProducts_fst GetProducts_snd fetch_def)
  have d: "\<exists>e. fetch toUpper coll c = Inl e \<and> r = SendString 500 e"
    if "fst (GetProducts toUpper coll c) = Inr r" and "statusOf r \<noteq> 200" for r
    using that by (auto simp: GetProducts_fst split: sum.splits)
  from a b d show ?thesis
    by (simp add: findCalls_GetProducts)
qed

text \<open>A store whose find fails, and one whose cursor cannot be decoded.\<close>

theorem C9_query_errors_surface_witness:
  "GetProducts upperASCII (failingFind ''server selection timeout'') noParams =
     (Inr (SendString 500 ''server selection timeout''),
      [CallFind [] \<lparr>Sort = [(''productList.productName'', 1)], Skip = 0, Limit = 10\<rparr>]) \<and>
   GetProducts upperASCII (failingDecode ''cannot decode'') noParams =
     (Inr (SendString 500 ''cannot decode''),
      [CallFind [] \<lparr>Sort = [(''productList.productName'', 1)], Skip = 0, Limit = 10\<rparr>,
       CallAll, CallClose]) \<and>
   bodyOf (SendString 500 ''cannot decode'') = PlainText ''cannot decode''"
proof -
  have h1: "Find (failingFind ''server selection timeout'') (requestFilter upperASCII noParams)
              (requestOptions noParams) = Inl ''server selection timeout''"
    by (simp add: failingFind_def)
  have h2: "Find (failingDecode ''cannot decode'') (requestFilter upperASCII noParams)
              (requestOptions noParams) = Inr () \<and>
            All (failingDecode ''cannot decode'') () = Inl ''cannot decode''"
    by (simp add: failingDecode_def)
  from C9_query_errors_surface
         [of "failingFind ''server selection timeout''" upperASCII noParams
             "''server selection timeout''"] h1
  have a: "GetProducts upperASCII (failingFind ''server selection timeout'') noParams =
     (Inr (SendString 500 ''server selection timeout''),
      [CallFind (requestFilter upperASCII noParams) (requestOptions noParams)])"
    by blast
  from C9_query_errors_surface
         [of "failingDecode ''cannot decode''" upperASCII noParams "''cannot decode''" "()"] h2
  have b: "GetProducts upperASCII (failingDecode ''cannot decode'') noParams =
     (Inr (SendString 500 ''cannot decode''),
      [CallFind (requestFilter upperASCII noParams) (requestOptions noParams), CallAll, CallClose])"
    by blast
  from a b show ?thesis
    by (simp add: requestFilter_noParams requestOptions_noParams)
qed

text \<open>
  Claim C10. In a JSON response the \<open>data\<close> slice is nil exactly when no product was
  flattened (the returned groups hold no well-formed entry, or there are none), and a nil
  \<open>data\<close> is marshalled as \<open>null\<close>. Every product of the response has a non-nil
  \<open>brokers\<close> slice, marshalled as an array; for an entry with no \<open>brokers\<close> field it is
  the empty array.
\<close>

theorem C10_nil_data_nonnil_brokers:
  assumes "fst (GetProducts toUpper coll c) = Inr (JSON code resp)"
  shows "(\<exists>results. fetch toUpper coll c = Inr results \<and>
            (Data resp = None) = (sum_list (map groupItemCount results) = 0)) \<and>
         (Data resp = None) = (elems (Data resp) = []) \<and>
         (Data resp = None \<longrightarrow> marshalResponse resp = JObject [(''data'', JNull)]) \<and>
         (\<forall>p\<in>set (elems (Data resp)).
            \<exists>bs. Brokers p = Some bs \<and>
                 member (marshalProduct p) ''brokers'' = Some (JArray (map marshalBroker bs))) \<and>
         (map_of productMap ''brokers'' = None \<longrightarrow>
            collectBrokers productMap = Some [] \<and>
            marshalSlice marshalBroker (collectBrokers productMap) = JArray [])"
proof -
  from assms obtain results where
    f: "fetch toUpper coll c = Inr results" and fl: "flatten results = Inr (Data resp)"
    by (auto simp: GetProducts_fst split: sum.splits)
  from fl have rl: "resultsLoop results None = Inr (Data resp)"
    by (simp add: flatten_def)
  have nil: "(Data resp = None) = (sum_list (map groupItemCount results) = 0)"
    using resultsLoop_nil [OF rl] by simp
  have len: "length (elems (Data resp)) = sum_list (map groupItemCount results)"
    using resultsLoop_elems [OF rl] by (simp add: elems_def)
  have e: "(Data resp = None) = (elems (Data resp) = [])"
    using nil len by (metis length_0_conv)
  have j: "Data resp = None \<longrightarrow> marshalResponse resp = JObject [(''data'', JNull)]"
    by (simp add: marshalResponse_def marshalSlice_def)
  have "\<forall>p\<in>set (elems (Data resp)). Brokers p \<noteq> None"
    using resultsLoop_brokers [OF rl] by (simp add: elems_def)
  then have br: "\<forall>p\<in>set (elems (Data resp)).
            \<exists>bs. Brokers p = Some bs \<and>
                 member (marshalProduct p) ''brokers'' = Some (JArray (map marshalBroker bs))"
    by (auto simp: marshalProduct_def marshalSlice_def)
  have ab: "map_of productMap ''brokers'' = None \<longrightarrow>
            collectBrokers productMap = Some [] \<and>
            marshalSlice marshalBroker (collectBrokers productMap) = JArray []"
    by (simp add: collectBrokers_def marshalSlice_def)
  from f nil have first: "\<exists>results. fetch toUpper coll c = Inr results \<and>
            (Data resp = None) = (sum_list (map groupItemCount results) = 0)"
    by (intro exI conjI)
  show ?thesis
    by (rule conjI [OF first conjI [OF e conjI [OF j conjI [OF br ab]]]])
qed

text \<open>No documents, one skipped group, and a product whose entry has no brokers field.\<close>

theorem C10_nil_data_nonnil_brokers_witness:
  "fst (GetProducts upperASCII (fixedStore []) noParams) = Inr (JSON 200 \<lparr>Data = None\<rparr>) \<and>
   bodyOf (JSON 200 \<lparr>Data = None\<rparr>) = JsonBody (JObject [(''data'', JNull)]) \<and>
   fst (GetProducts upperASCII (fixedStore [groupNoList]) noParams) =
     Inr (JSON 200 \<lparr>Data = None\<rparr>) \<and>
   fst (GetProducts upperASCII (fixedStore [groupTwo]) noParams) =
     Inr (JSON 200 \<lparr>Data = Some [productAlpha, productBeta]\<rparr>) \<and>
   map_of (case entryPlain of BDoc m \<Rightarrow> m) ''brokers'' = None \<and>
   member (marshalProduct productBeta) ''brokers'' = Some (JArray [])"
proof -
  have h0: "fst (GetProducts upperASCII (fixedStore []) noParams) = Inr (JSON 200 \<lparr>Data = None\<rparr>)"
    by (simp add: GetProducts_fst fetch_fixedStore flatten_def)
  have h1: "fst (GetProducts upperASCII (fixedStore [groupNoList]) noParams) =
              Inr (JSON 200 \<lparr>Data = None\<rparr>)"
    by (simp add: GetProducts_fst fetch_fixedStore flatten_def groupNoList_def)
  have h2: "fst (GetProducts upperASCII (fixedStore [groupTwo]) noParams) =
     Inr (JSON 200 \<lparr>Data = Some [productAlpha, productBeta]\<rparr>)"
    by (simp add: GetProducts_fst fetch_fixedStore flatten_groupTwo)
  from C10_nil_data_nonnil_brokers [OF h0]
  have a: "marshalResponse \<lparr>Data = None\<rparr> = JObject [(''data'', JNull)]" by simp
  from C10_nil_data_nonnil_brokers [OF h2]
  have "\<exists>bs. Brokers productBeta = Some bs \<and>
          member (marshalProduct productBeta) ''brokers'' = Some (JArray (map marshalBroker bs))"
    by (simp add: elems_def)
  then have b: "member (marshalProduct productBeta) ''brokers'' = Some (JArray [])"
    by (auto simp: productBeta_def)
  have c: "map_of (case entryPlain of BDoc m \<Rightarrow> m) ''brokers'' = None"
    by (simp add: entryPlain_def)
  from h0 h1 h2 a b c show ?thesis by simp
qed

end
